theory Spec2Isabelle
  imports Main "HOL-Library.AList"
begin

section \<open>JavaScript values and objects\<close>

text \<open>
  The repository is TypeScript; \<^verbatim>\<open>dist/fargate.js\<close> is what runs. The values of a
  \<^verbatim>\<open>Record<string, string>\<close> are declared strings, yet the code tests them for
  truthiness and a property read of a missing key is \<^verbatim>\<open>undefined\<close>, so the values
  of a record are modelled dynamically. Numbers are the integers (no NaN, no fraction).
\<close>

datatype js_error = TypeError

datatype js_value =
  JSUndefined
| JSNull
| JSBoolean bool
| JSNumber int
| JSString string

text \<open>ToBoolean: the falsy values are undefined, null, false, 0 and the empty string.\<close>

fun truthy :: "js_value \<Rightarrow> bool" where
  "truthy JSUndefined = False"
| "truthy JSNull = False"
| "truthy (JSBoolean b) = b"
| "truthy (JSNumber n) = (n \<noteq> 0)"
| "truthy (JSString s) = (s \<noteq> [])"

fun is_string :: "js_value \<Rightarrow> bool" where
  "is_string (JSString s) = True"
| "is_string v = False"

text \<open>
  An object is the list of its own enumerable properties in enumeration order; the
  prototype chain is not modelled. The keys of an object are pairwise different, and
  the model leaves out the key \<^verbatim>\<open>__proto__\<close>: an assignment to it sets the prototype
  of a plain object and stores no property. Both conditions are \<open>wf_object\<close>.
\<close>

type_synonym 'v js_object = "(string \<times> 'v) list"

definition wf_object :: "'v js_object \<Rightarrow> bool" where
  "wf_object obj = (distinct (map fst obj) \<and> ''__proto__'' \<notin> set (map fst obj))"

definition Object_entries :: "'v js_object \<Rightarrow> (string \<times> 'v) list" where
  "Object_entries obj = obj"

definition Object_keys :: "'v js_object \<Rightarrow> string list" where
  "Object_keys obj = map fst obj"

text \<open>
  \<^verbatim>\<open>obj[k]\<close>: a missing property reads as undefined. The code reads by the decimal
  indices of an array, which no prototype defines.
\<close>

definition get_prop :: "js_value js_object \<Rightarrow> string \<Rightarrow> js_value" where
  "get_prop obj k = (case map_of obj k of None \<Rightarrow> JSUndefined | Some v \<Rightarrow> v)"

text \<open>
  \<^verbatim>\<open>obj[k] = v\<close>: an existing property keeps its place, a new one goes last.
  (JavaScript enumerates integer-like keys first; the loops below insert in enumeration
  order, and no statement depends on the order of two entries.)
\<close>

definition set_prop :: "'v js_object \<Rightarrow> string \<Rightarrow> 'v \<Rightarrow> 'v js_object" where
  "set_prop obj k v = AList.update k v obj"

subsection \<open>Strings and arrays\<close>

text \<open>
  \<^verbatim>\<open>s.split(sep)\<close> for a one-character separator: the segments between the
  occurrences of the separator, so one more segment than there are separators;
  \<^verbatim>\<open>"".split(":")\<close> is \<^verbatim>\<open>[""]\<close>.
\<close>

fun split_str :: "char \<Rightarrow> string \<Rightarrow> string \<Rightarrow> string list" where
  "split_str sep cur [] = [rev cur]"
| "split_str sep cur (c # cs) =
     (if c = sep then rev cur # split_str sep [] cs else split_str sep (c # cur) cs)"

text \<open>
  The method call \<^verbatim>\<open>value.split(sep)\<close>: undefined and null have no properties, and
  a boolean or a number has no \<^verbatim>\<open>split\<close>; both raise TypeError.
\<close>

fun split :: "js_value \<Rightarrow> char \<Rightarrow> js_error + string list" where
  "split (JSString s) sep = Inr (split_str sep [] s)"
| "split v sep = Inl TypeError"

text \<open>\<^verbatim>\<open>xs.slice(b, e)\<close> for indices that are not negative.\<close>

definition slice :: "nat \<Rightarrow> nat \<Rightarrow> 'a list \<Rightarrow> 'a list" where
  "slice b e xs = take (e - b) (drop b xs)"

text \<open>\<^verbatim>\<open>const [a, b] = xs\<close>: a missing element is undefined (\<open>None\<close>).\<close>

fun destructure2 :: "'a list \<Rightarrow> 'a option \<times> 'a option" where
  "destructure2 [] = (None, None)"
| "destructure2 [a] = (Some a, None)"
| "destructure2 (a # b # rest) = (Some a, Some b)"

text \<open>
  \<^verbatim>\<open>for (const i in xs)\<close> over an array enumerates its indices as decimal strings.
\<close>

definition digit_char :: "nat \<Rightarrow> char" where
  "digit_char d = ''0123456789'' ! d"

fun string_of_nat :: "nat \<Rightarrow> string" where
  "string_of_nat n =
     (if n < 10 then [digit_char n] else string_of_nat (n div 10) @ [digit_char (n mod 10)])"

declare string_of_nat.simps [simp del]

definition for_in_keys :: "'a list \<Rightarrow> string list" where
  "for_in_keys xs = map string_of_nat [0 ..< length xs]"

section \<open>The constructs of the infrastructure library\<close>

text \<open>
  The library is not part of the repository. Each of its factory calls is a constructor
  that records the arguments the repository passes; the scope argument is always
  \<^verbatim>\<open>this\<close> and is left out. What the library does with the arguments is not
  modelled.
\<close>

datatype ssm_secret = FromSecretNameV2 (id_arg: string) (secretName_arg: "string option")

datatype ecs_secret = FromSecretsManager (secret_arg: ssm_secret) (field_arg: "string option")

text \<open>
  The pair the specification calls a resolved secret reference: the secret name and the
  field name that reach the library; \<open>None\<close> is undefined.
\<close>

definition ref_secretName :: "ecs_secret \<Rightarrow> string option" where
  "ref_secretName s = secretName_arg (secret_arg s)"

definition ref_fieldName :: "ecs_secret \<Rightarrow> string option" where
  "ref_fieldName s = field_arg s"

datatype 'repo container_image =
  FromRegistry string
| FromEcrRepository 'repo string

datatype duration = Duration_seconds int

section \<open>fargate.ts\<close>

definition DEFAULT_IMAGE :: string where
  "DEFAULT_IMAGE = ''nginxdemos/hello:latest''"

definition DEFAULT_VERSION :: string where
  "DEFAULT_VERSION = ''default''"

record TaskConfiguration =
  memoryLimitMiB :: "int option"
  healthCheckGracePeriod :: "duration option"
  cpu :: "int option"
  desiredCount :: "int option"
  environment :: "js_value js_object option"
  secrets :: "js_value js_object option"

record 'repo FargateServiceProps =
  healthCheckPath :: "string option"
  imageVersion :: "string option"
  subDomainIncludingDot :: "string option"
  repository :: 'repo
  taskConfiguration :: TaskConfiguration

subsection \<open>Compile secrets\<close>

text \<open>
  The body of the loop, the same text in both versions of the file (the object
  \<^verbatim>\<open>secrets\<close> under construction is \<open>acc\<close>):
  \<^verbatim>\<open>
  const [secretName, fieldName] = value.split(':').slice(0, 2)
  const secret = ssm.Secret.fromSecretNameV2(this, secretKey, secretName)
  secrets[secretKey] = ecs.Secret.fromSecretsManager(secret, fieldName)
  \<close>
\<close>

definition store_secret ::
  "ecs_secret js_object \<Rightarrow> string \<Rightarrow> js_value \<Rightarrow> js_error + ecs_secret js_object" where
  "store_secret acc secretKey v =
     (case split v CHR '':'' of
        Inl e \<Rightarrow> Inl e
      | Inr parts \<Rightarrow>
          (case destructure2 (slice 0 2 parts) of
             (secretName, fieldName) \<Rightarrow>
               let secret = FromSecretNameV2 secretKey secretName
               in Inr (set_prop acc secretKey (FromSecretsManager secret fieldName))))"

text \<open>
  The current version (\<^verbatim>\<open>dist/fargate.js\<close> lines 51 to 58):
  \<^verbatim>\<open>
  for (const [secretKey, value] of Object.entries(secretValues)) {
    if (value) { ... }
  }
  \<close>
\<close>

fun secrets_loop ::
  "(string \<times> js_value) list \<Rightarrow> ecs_secret js_object \<Rightarrow> js_error + ecs_secret js_object" where
  "secrets_loop [] acc = Inr acc"
| "secrets_loop ((secretKey, v) # rest) acc =
     (if truthy v then
        (case store_secret acc secretKey v of
           Inl e \<Rightarrow> Inl e
         | Inr acc' \<Rightarrow> secrets_loop rest acc')
      else secrets_loop rest acc)"

text \<open>
  \<^verbatim>\<open>
  const secrets = {}
  const secretValues = taskConfiguration.secrets
  if (secretValues) { for ... }
  \<close>
  An object is truthy, the empty one too.
\<close>

definition resolveSecrets :: "TaskConfiguration \<Rightarrow> js_error + ecs_secret js_object" where
  "resolveSecrets taskConfig =
     (case secrets taskConfig of
        None \<Rightarrow> Inr []
      | Some secretValues \<Rightarrow> secrets_loop (Object_entries secretValues) [])"

text \<open>
  The earlier version (\<^verbatim>\<open>src/fargate.ts\<close> lines 73 to 87):
  \<^verbatim>\<open>
  for (const secretKey in Object.keys(secretValues)) {
    const value = secretValues[secretKey]
    ...
  }
  \<close>
  \<^verbatim>\<open>for ... in\<close> over the array of keys enumerates the array's indices.
\<close>

fun secrets_loop_ts ::
  "js_value js_object \<Rightarrow> string list \<Rightarrow> ecs_secret js_object \<Rightarrow>
     js_error + ecs_secret js_object" where
  "secrets_loop_ts secretValues [] acc = Inr acc"
| "secrets_loop_ts secretValues (secretKey # rest) acc =
     (let v = get_prop secretValues secretKey in
      case store_secret acc secretKey v of
        Inl e \<Rightarrow> Inl e
      | Inr acc' \<Rightarrow> secrets_loop_ts secretValues rest acc')"

definition resolveSecrets_ts :: "TaskConfiguration \<Rightarrow> js_error + ecs_secret js_object" where
  "resolveSecrets_ts taskConfig =
     (case secrets taskConfig of
        None \<Rightarrow> Inr []
      | Some secretValues \<Rightarrow>
          secrets_loop_ts secretValues (for_in_keys (Object_keys secretValues)) [])"

subsection \<open>Pick image\<close>

text \<open>
  \<^verbatim>\<open>
  const image = imageVersion === DEFAULT_VERSION
    ? ecs.ContainerImage.fromRegistry(DEFAULT_IMAGE)
    : ecs.ContainerImage.fromEcrRepository(repository, imageVersion)
  \<close>
\<close>

definition resolveImage :: "'repo \<Rightarrow> string \<Rightarrow> 'repo container_image" where
  "resolveImage repo version =
     (if version = DEFAULT_VERSION then FromRegistry DEFAULT_IMAGE
      else FromEcrRepository repo version)"

subsection \<open>Sizing\<close>

text \<open>\<^verbatim>\<open>x || d\<close> on an optional number: undefined and 0 are falsy.\<close>

definition or_number :: "int option \<Rightarrow> int \<Rightarrow> int" where
  "or_number x d = (case x of None \<Rightarrow> d | Some n \<Rightarrow> if n = 0 then d else n)"

text \<open>\<^verbatim>\<open>x || d\<close> on an optional object: an object is truthy.\<close>

definition or_object :: "'a option \<Rightarrow> 'a \<Rightarrow> 'a" where
  "or_object x d = (case x of None \<Rightarrow> d | Some obj \<Rightarrow> obj)"

record Sizing =
  sz_memoryLimitMiB :: int
  sz_healthCheckGracePeriod :: duration
  sz_cpu :: int
  sz_desiredCount :: int

definition resolveSizing :: "TaskConfiguration \<Rightarrow> Sizing" where
  "resolveSizing taskConfig =
     \<lparr> sz_memoryLimitMiB = or_number (memoryLimitMiB taskConfig) 512,
       sz_healthCheckGracePeriod =
         or_object (healthCheckGracePeriod taskConfig) (Duration_seconds 60),
       sz_cpu = or_number (cpu taskConfig) 256,
       sz_desiredCount = or_number (desiredCount taskConfig) 1 \<rparr>"

subsection \<open>The constructor\<close>

text \<open>
  The options the constructor passes to
  \<^verbatim>\<open>ApplicationLoadBalancedFargateService\<close>, as far as they depend on the input.
  A destructuring default (\<^verbatim>\<open>imageVersion = DEFAULT_VERSION\<close>) applies when the
  property is undefined.
\<close>

record 'repo ServiceOptions =
  opt_sizing :: Sizing
  opt_image :: "'repo container_image"
  opt_environment :: "js_value js_object"
  opt_secrets :: "ecs_secret js_object"

definition FargateService :: "'repo FargateServiceProps \<Rightarrow> js_error + 'repo ServiceOptions" where
  "FargateService props =
     (let version = (case imageVersion props of None \<Rightarrow> DEFAULT_VERSION | Some v \<Rightarrow> v);
          taskConfig = taskConfiguration props
      in case resolveSecrets taskConfig of
           Inl e \<Rightarrow> Inl e
         | Inr compiled \<Rightarrow>
             Inr \<lparr> opt_sizing = resolveSizing taskConfig,
                   opt_image = resolveImage (repository props) version,
                   opt_environment = or_object (environment taskConfig) [],
                   opt_secrets = compiled \<rparr>)"

section \<open>Inputs and the input contract\<close>

text \<open>The TaskConfiguration \<^verbatim>\<open>{}\<close>: every optional field absent.\<close>

definition empty_config :: TaskConfiguration where
  "empty_config =
     \<lparr> memoryLimitMiB = None, healthCheckGracePeriod = None, cpu = None,
       desiredCount = None, environment = None, secrets = None \<rparr>"

text \<open>The entries of the secrets map of a configuration; an absent map has none.\<close>

definition secret_entries :: "TaskConfiguration \<Rightarrow> (string \<times> js_value) list" where
  "secret_entries taskConfig = (case secrets taskConfig of None \<Rightarrow> [] | Some sv \<Rightarrow> sv)"

text \<open>
  The declared type of the secrets map is \<^verbatim>\<open>Record<string, string>\<close>: every value is
  a string (\<open>string_record\<close>). The loop itself needs less: that every truthy value is
  a string (\<open>falsy_or_string\<close>).
\<close>

definition string_record :: "js_value js_object \<Rightarrow> bool" where
  "string_record obj = list_all (\<lambda>(k, v). is_string v) obj"

definition falsy_or_string :: "js_value js_object \<Rightarrow> bool" where
  "falsy_or_string obj = list_all (\<lambda>(k, v). is_string v \<or> \<not> truthy v) obj"

text \<open>An entry the loop keeps: its value is a string that is not empty.\<close>

fun nonempty_string :: "js_value \<Rightarrow> bool" where
  "nonempty_string (JSString s) = (s \<noteq> [])"
| "nonempty_string v = False"

text \<open>
  The segment of a string before its first colon, and what follows that colon.
\<close>

definition before_colon :: "string \<Rightarrow> string" where
  "before_colon s = takeWhile (\<lambda>c. c \<noteq> CHR '':'') s"

definition after_colon :: "string \<Rightarrow> string" where
  "after_colon s = tl (dropWhile (\<lambda>c. c \<noteq> CHR '':'') s)"

text \<open>
  The secret the loop body stores for a key and a string value, written without the
  split: the name is the segment before the first colon; the field is the segment
  between the first and the second colon, and undefined when there is no colon.
\<close>

definition secret_entry :: "string \<Rightarrow> string \<Rightarrow> ecs_secret" where
  "secret_entry k s =
     FromSecretsManager (FromSecretNameV2 k (Some (before_colon s)))
       (if CHR '':'' \<in> set s then Some (before_colon (after_colon s)) else None)"

fun string_of :: "js_value \<Rightarrow> string" where
  "string_of (JSString s) = s"
| "string_of v = []"

definition compiled :: "(string \<times> js_value) list \<Rightarrow> ecs_secret js_object" where
  "compiled kvs =
     map (\<lambda>(k, v). (k, secret_entry k (string_of v))) (filter (\<lambda>(k, v). truthy v) kvs)"

section \<open>The loop body and the loop\<close>

text \<open>
  The split of a string, one segment at a time: the first segment is what stands before
  the first separator, and the rest is the split of what follows it.
\<close>

lemma split_str_unfold:
  "split_str sep cur s = (rev cur @ takeWhile (\<lambda>c. c \<noteq> sep) s) #
     (if sep \<in> set s then split_str sep [] (tl (dropWhile (\<lambda>c. c \<noteq> sep) s)) else [])"
  by (induction s arbitrary: cur) auto

lemma destructure2_split:
  "destructure2 (slice 0 2 (split_str CHR '':'' [] s)) =
     (Some (before_colon s),
      if CHR '':'' \<in> set s then Some (before_colon (after_colon s)) else None)"
proof (cases "CHR '':'' \<in> set s")
  case True
  have "split_str CHR '':'' [] s = before_colon s # split_str CHR '':'' [] (after_colon s)"
    using True by (subst split_str_unfold) (simp add: before_colon_def after_colon_def)
  also have "split_str CHR '':'' [] (after_colon s) =
      before_colon (after_colon s) #
        (if CHR '':'' \<in> set (after_colon s)
         then split_str CHR '':'' [] (after_colon (after_colon s)) else [])"
    by (subst split_str_unfold) (simp add: before_colon_def after_colon_def)
  finally show ?thesis using True by (simp add: slice_def)
next
  case False
  then have "split_str CHR '':'' [] s = [before_colon s]"
    by (subst split_str_unfold) (simp add: before_colon_def)
  then show ?thesis using False by (simp add: slice_def)
qed

lemma store_secret_string:
  "store_secret acc k (JSString s) = Inr (set_prop acc k (secret_entry k s))"
  by (simp add: store_secret_def destructure2_split secret_entry_def)

lemma store_secret_Inr:
  "store_secret acc k v = Inr acc' \<Longrightarrow> is_string v \<and> acc' = set_prop acc k (secret_entry k (string_of v))"
  by (cases v) (auto simp: store_secret_string, auto simp: store_secret_def)

lemma update_fresh: "k \<notin> fst ` set al \<Longrightarrow> AList.update k v al = al @ [(k, v)]"
  by (induction al) auto

lemma secrets_loop_compiled:
  assumes "falsy_or_string kvs" and "distinct (map fst kvs)"
    and "fst ` set kvs \<inter> fst ` set acc = {}"
  shows "secrets_loop kvs acc = Inr (acc @ compiled kvs)"
  using assms
proof (induction kvs arbitrary: acc)
  case Nil
  then show ?case by (simp add: compiled_def)
next
  case (Cons kv kvs)
  obtain k v where kv: "kv = (k, v)" by (cases kv)
  have rest: "falsy_or_string kvs" "distinct (map fst kvs)"
    using Cons.prems by (simp_all add: falsy_or_string_def)
  have fresh: "k \<notin> fst ` set acc" "k \<notin> fst ` set kvs"
    using Cons.prems kv by auto
  show ?case
  proof (cases "truthy v")
    case False
    have "fst ` set kvs \<inter> fst ` set acc = {}" using Cons.prems by auto
    with Cons.IH rest False kv show ?thesis by (simp add: compiled_def)
  next
    case True
    then obtain s where s: "v = JSString s"
      using Cons.prems(1) kv by (cases v) (auto simp: falsy_or_string_def)
    have disj: "fst ` set kvs \<inter> fst ` set (acc @ [(k, secret_entry k s)]) = {}"
      using Cons.prems kv by auto
    have "secrets_loop (kv # kvs) acc = secrets_loop kvs (acc @ [(k, secret_entry k s)])"
      using True kv s fresh by (simp add: store_secret_string set_prop_def update_fresh)
    also have "\<dots> = Inr ((acc @ [(k, secret_entry k s)]) @ compiled kvs)"
      by (rule Cons.IH [OF rest disj])
    finally show ?thesis using True kv s by (simp add: compiled_def)
  qed
qed

lemma resolveSecrets_compiled:
  assumes "falsy_or_string (secret_entries cfg)" and "wf_object (secret_entries cfg)"
  shows "resolveSecrets cfg = Inr (compiled (secret_entries cfg))"
  using assms secrets_loop_compiled [of "secret_entries cfg" "[]"]
  by (auto simp: resolveSecrets_def secret_entries_def Object_entries_def wf_object_def compiled_def
      falsy_or_string_def split: option.splits)

lemma nonempty_string_iff: "nonempty_string v = (is_string v \<and> truthy v)"
  by (cases v) auto

lemma filter_truthy:
  "falsy_or_string kvs \<Longrightarrow>
   filter (\<lambda>(k, v). truthy v) kvs = filter (\<lambda>(k, v). nonempty_string v) kvs"
  unfolding falsy_or_string_def list_all_iff
  by (rule filter_cong) (auto simp: nonempty_string_iff)

lemma length_compiled:
  "falsy_or_string kvs \<Longrightarrow> length (compiled kvs) = length (filter (\<lambda>(k, v). nonempty_string v) kvs)"
  by (simp add: compiled_def filter_truthy)


lemma map_of_compiled:
  "distinct (map fst kvs) \<Longrightarrow>
   map_of (compiled kvs) k =
     (case map_of kvs k of None \<Rightarrow> None
      | Some v \<Rightarrow> if truthy v then Some (secret_entry k (string_of v)) else None)"
  unfolding compiled_def
  by (induction kvs) (auto simp: map_of_eq_None_iff image_iff split: option.splits)

lemma secrets_loop_total:
  "falsy_or_string kvs \<Longrightarrow> \<exists>out. secrets_loop kvs acc = Inr out"
proof (induction kvs arbitrary: acc)
  case Nil
  then show ?case by simp
next
  case (Cons kv kvs)
  obtain k v where kv: "kv = (k, v)" by (cases kv)
  have rest: "falsy_or_string kvs"
    using Cons.prems by (simp add: falsy_or_string_def)
  show ?case
  proof (cases "truthy v")
    case False
    with Cons.IH [OF rest] kv show ?thesis by simp
  next
    case True
    then obtain s where "v = JSString s"
      using Cons.prems kv by (cases v) (auto simp: falsy_or_string_def)
    with Cons.IH [OF rest] kv True show ?thesis
      by (simp add: store_secret_string)
  qed
qed

lemma string_record_falsy_or_string: "string_record obj \<Longrightarrow> falsy_or_string obj"
  by (auto simp: string_record_def falsy_or_string_def list_all_iff)

lemma resolveSecrets_total:
  "falsy_or_string (secret_entries cfg) \<Longrightarrow> \<exists>out. resolveSecrets cfg = Inr out"
  using secrets_loop_total [of "secret_entries cfg" "[]"]
  by (auto simp: resolveSecrets_def secret_entries_def Object_entries_def split: option.splits)

lemma wf_compiled: "wf_object kvs \<Longrightarrow> wf_object (compiled kvs)"
proof -
  have "map fst (compiled kvs) = map fst (filter (\<lambda>(k, v). truthy v) kvs)"
    by (simp add: compiled_def case_prod_unfold comp_def)
  then show "wf_object kvs \<Longrightarrow> wf_object (compiled kvs)"
    by (auto simp: wf_object_def distinct_map_filter)
qed

text \<open>
  Outside the contract the loop does raise: a truthy value that is not a string has no
  \<^verbatim>\<open>split\<close>.
\<close>

lemma resolveSecrets_number_raises:
  "resolveSecrets (empty_config\<lparr>secrets := Some [(''PORT'', JSNumber 5432)]\<rparr>) = Inl TypeError"
  by (simp add: resolveSecrets_def Object_entries_def store_secret_def)

text \<open>
  The earlier loop: where it completes, the entry under a key it visited is the loop
  body's secret for what the map holds under that key.
\<close>

lemma secrets_loop_ts_Inr:
  "secrets_loop_ts sv ks acc = Inr out \<Longrightarrow>
   map_of out k =
     (if k \<in> set ks then Some (secret_entry k (string_of (get_prop sv k))) else map_of acc k)"
proof (induction ks arbitrary: acc)
  case Nil
  then show ?case by simp
next
  case (Cons key ks)
  from Cons.prems obtain acc' where
    step: "store_secret acc key (get_prop sv key) = Inr acc'" and
    rest: "secrets_loop_ts sv ks acc' = Inr out"
    by (auto simp: Let_def split: sum.splits)
  from step have acc': "acc' = set_prop acc key (secret_entry key (string_of (get_prop sv key)))"
    by (simp add: store_secret_Inr)
  from Cons.IH [OF rest] show ?case
    by (simp add: acc' set_prop_def update_conv')
qed

lemma resolveSecrets_ts_empty:
  "secrets cfg = None \<or> secrets cfg = Some [] \<Longrightarrow> resolveSecrets_ts cfg = Inr []"
  by (auto simp: resolveSecrets_ts_def for_in_keys_def Object_keys_def)

lemma resolveSecrets_empty:
  "secrets cfg = None \<or> secrets cfg = Some [] \<Longrightarrow> resolveSecrets cfg = Inr []"
  by (auto simp: resolveSecrets_def Object_entries_def)

section \<open>The claims\<close>

text \<open>
  C1. For every entry of the secrets map whose value is a non-empty string with at least
  one colon, the compiled secrets hold an entry under the same key: its secret name is
  the segment before the first colon, its field name the segment between the first and
  the second colon, and nothing after the second colon is kept. The map
  \<^verbatim>\<open>{"DB_PASS": "my-secret:password"}\<close> yields the secret \<^verbatim>\<open>my-secret\<close> with the
  field \<^verbatim>\<open>password\<close> under \<^verbatim>\<open>DB_PASS\<close>. The map is an object of the model
  (\<open>wf_object\<close>) and each of its truthy values is a string.
\<close>

theorem resolveSecrets_colon_entry:
  assumes "wf_object (secret_entries cfg)" and "falsy_or_string (secret_entries cfg)"
    and "(k, JSString s) \<in> set (secret_entries cfg)"
    and "s \<noteq> []" and "CHR '':'' \<in> set s"
  shows "(\<exists>out r. resolveSecrets cfg = Inr out \<and> map_of out k = Some r \<and>
            ref_secretName r = Some (takeWhile (\<lambda>c. c \<noteq> CHR '':'') s) \<and>
            ref_fieldName r =
              Some (takeWhile (\<lambda>c. c \<noteq> CHR '':'') (tl (dropWhile (\<lambda>c. c \<noteq> CHR '':'') s)))) \<and>
         resolveSecrets (empty_config\<lparr>secrets := Some [(''DB_PASS'', JSString ''my-secret:password'')]\<rparr>) =
           Inr [(''DB_PASS'',
                 FromSecretsManager (FromSecretNameV2 ''DB_PASS'' (Some ''my-secret''))
                   (Some ''password''))]"
proof -
  have out: "resolveSecrets cfg = Inr (compiled (secret_entries cfg))"
    by (rule resolveSecrets_compiled [OF assms(2) assms(1)])
  have "map_of (secret_entries cfg) k = Some (JSString s)"
    using assms(1,3) by (simp add: wf_object_def)
  then have "map_of (compiled (secret_entries cfg)) k = Some (secret_entry k s)"
    using assms(1,4) by (simp add: map_of_compiled wf_object_def)
  moreover have "ref_secretName (secret_entry k s) = Some (takeWhile (\<lambda>c. c \<noteq> CHR '':'') s)"
    by (simp add: ref_secretName_def secret_entry_def before_colon_def)
  moreover have "ref_fieldName (secret_entry k s) =
      Some (takeWhile (\<lambda>c. c \<noteq> CHR '':'') (tl (dropWhile (\<lambda>c. c \<noteq> CHR '':'') s)))"
    using assms(5) by (simp add: ref_fieldName_def secret_entry_def before_colon_def after_colon_def)
  moreover have "resolveSecrets (empty_config\<lparr>secrets := Some [(''DB_PASS'', JSString ''my-secret:password'')]\<rparr>) =
           Inr [(''DB_PASS'',
                 FromSecretsManager (FromSecretNameV2 ''DB_PASS'' (Some ''my-secret''))
                   (Some ''password''))]"
    by (simp add: resolveSecrets_def Object_entries_def store_secret_def slice_def set_prop_def)
  ultimately show ?thesis using out by blast
qed

text \<open>The theorem at a map with an empty value and a value of three segments.\<close>

theorem resolveSecrets_colon_entry_witness:
  "\<exists>out r. resolveSecrets (empty_config\<lparr>secrets :=
        Some [(''X'', JSString ''''), (''API_KEY'', JSString ''app/prod:key:extra'')]\<rparr>) = Inr out \<and>
     map_of out ''API_KEY'' = Some r \<and>
     ref_secretName r = Some ''app/prod'' \<and> ref_fieldName r = Some ''key''"
  using resolveSecrets_colon_entry [of "empty_config\<lparr>secrets :=
        Some [(''X'', JSString ''''), (''API_KEY'', JSString ''app/prod:key:extra'')]\<rparr>"
        "''API_KEY''" "''app/prod:key:extra''"]
  by (simp add: secret_entries_def wf_object_def falsy_or_string_def)

text \<open>
  C2, as the code has it. For every entry whose value is a non-empty string with no
  colon, the compilation raises no error and stores an entry under the same key whose
  secret name is the whole value. Its field name is undefined: the destructuring
  \<^verbatim>\<open>const [secretName, fieldName] = ["my-secret"]\<close> finds no second element. The map
  \<^verbatim>\<open>{"DB_PASS": "my-secret"}\<close> yields the secret \<^verbatim>\<open>my-secret\<close> with an undefined
  field under \<^verbatim>\<open>DB_PASS\<close>. The empty string is the field of a value that ends in a
  colon, such as \<^verbatim>\<open>"my-secret:"\<close>.
\<close>

theorem resolveSecrets_no_colon_entry:
  assumes "wf_object (secret_entries cfg)" and "falsy_or_string (secret_entries cfg)"
    and "(k, JSString s) \<in> set (secret_entries cfg)"
    and "s \<noteq> []" and "CHR '':'' \<notin> set s"
  shows "(\<exists>out r. resolveSecrets cfg = Inr out \<and> map_of out k = Some r \<and>
            ref_secretName r = Some s \<and> ref_fieldName r = None) \<and>
         resolveSecrets (empty_config\<lparr>secrets := Some [(''DB_PASS'', JSString ''my-secret'')]\<rparr>) =
           Inr [(''DB_PASS'',
                 FromSecretsManager (FromSecretNameV2 ''DB_PASS'' (Some ''my-secret'')) None)]"
proof -
  have out: "resolveSecrets cfg = Inr (compiled (secret_entries cfg))"
    by (rule resolveSecrets_compiled [OF assms(2) assms(1)])
  have "map_of (secret_entries cfg) k = Some (JSString s)"
    using assms(1,3) by (simp add: wf_object_def)
  then have "map_of (compiled (secret_entries cfg)) k = Some (secret_entry k s)"
    using assms(1,4) by (simp add: map_of_compiled wf_object_def)
  moreover have "ref_secretName (secret_entry k s) = Some s"
    using assms(5) by (auto simp: ref_secretName_def secret_entry_def before_colon_def)
  moreover have "ref_fieldName (secret_entry k s) = None"
    using assms(5) by (simp add: ref_fieldName_def secret_entry_def)
  moreover have "resolveSecrets (empty_config\<lparr>secrets := Some [(''DB_PASS'', JSString ''my-secret'')]\<rparr>) =
           Inr [(''DB_PASS'',
                 FromSecretsManager (FromSecretNameV2 ''DB_PASS'' (Some ''my-secret'')) None)]"
    by (simp add: resolveSecrets_def Object_entries_def store_secret_def slice_def set_prop_def)
  ultimately show ?thesis using out by blast
qed

text \<open>The theorem at a map whose first value has no colon.\<close>

theorem resolveSecrets_no_colon_entry_witness:
  "\<exists>out r. resolveSecrets (empty_config\<lparr>secrets :=
        Some [(''TOKEN'', JSString ''app-token''), (''DB_PASS'', JSString ''db:password'')]\<rparr>) = Inr out \<and>
     map_of out ''TOKEN'' = Some r \<and>
     ref_secretName r = Some ''app-token'' \<and> ref_fieldName r = None"
  using resolveSecrets_no_colon_entry [of "empty_config\<lparr>secrets :=
        Some [(''TOKEN'', JSString ''app-token''), (''DB_PASS'', JSString ''db:password'')]\<rparr>"
        "''TOKEN''" "''app-token''"]
  by (simp add: secret_entries_def wf_object_def falsy_or_string_def)

text \<open>
  C2 as stated fails: for \<^verbatim>\<open>{"DB_PASS": "my-secret"}\<close> the entry with the empty
  string as its field name is not what the code yields.
\<close>

theorem resolveSecrets_no_colon_not_empty_field:
  "resolveSecrets (empty_config\<lparr>secrets := Some [(''DB_PASS'', JSString ''my-secret'')]\<rparr>) \<noteq>
     Inr [(''DB_PASS'',
           FromSecretsManager (FromSecretNameV2 ''DB_PASS'' (Some ''my-secret'')) (Some ''''))]"
  by (simp add: resolveSecrets_def Object_entries_def store_secret_def slice_def set_prop_def)

text \<open>
  C3. The compiled secrets have at most as many entries as the secrets map, and exactly
  as many as the map has values that are non-empty strings; their keys differ, so the
  length counts the entries. Empty and other falsy values leave no entry:
  \<^verbatim>\<open>{"X": ""}\<close> compiles to the empty object, and so does an absent map.
\<close>

theorem resolveSecrets_size:
  assumes "wf_object (secret_entries cfg)" and "falsy_or_string (secret_entries cfg)"
  shows "(\<exists>out. resolveSecrets cfg = Inr out \<and> wf_object out \<and>
            length out = length (filter (\<lambda>(k, v). nonempty_string v) (secret_entries cfg)) \<and>
            length out \<le> length (secret_entries cfg)) \<and>
         resolveSecrets (empty_config\<lparr>secrets := Some [(''X'', JSString '''')]\<rparr>) = Inr [] \<and>
         resolveSecrets empty_config = Inr []"
proof -
  have out: "resolveSecrets cfg = Inr (compiled (secret_entries cfg))"
    by (rule resolveSecrets_compiled [OF assms(2) assms(1)])
  moreover have "wf_object (compiled (secret_entries cfg))"
    using assms(1) by (rule wf_compiled)
  moreover have len: "length (compiled (secret_entries cfg)) =
      length (filter (\<lambda>(k, v). nonempty_string v) (secret_entries cfg))"
    by (rule length_compiled [OF assms(2)])
  moreover have "length (compiled (secret_entries cfg)) \<le> length (secret_entries cfg)"
    unfolding len by (rule length_filter_le)
  moreover have "resolveSecrets (empty_config\<lparr>secrets := Some [(''X'', JSString '''')]\<rparr>) = Inr []"
    by (simp add: resolveSecrets_def Object_entries_def)
  moreover have "resolveSecrets empty_config = Inr []"
    by (simp add: resolveSecrets_def empty_config_def)
  ultimately show ?thesis by blast
qed

text \<open>The theorem at a map of four entries, two of them falsy.\<close>

theorem resolveSecrets_size_witness:
  "\<exists>out. resolveSecrets (empty_config\<lparr>secrets :=
       Some [(''A'', JSString ''s:f''), (''B'', JSString ''''), (''C'', JSUndefined),
             (''D'', JSString ''t'')]\<rparr>) = Inr out \<and> length out = 2"
  using resolveSecrets_size [of "empty_config\<lparr>secrets :=
       Some [(''A'', JSString ''s:f''), (''B'', JSString ''''), (''C'', JSUndefined),
             (''D'', JSString ''t'')]\<rparr>"]
  by (auto simp: secret_entries_def wf_object_def falsy_or_string_def numeral_2_eq_2)



text \<open>
  C4. The picked image is the fixed public image \<^verbatim>\<open>nginxdemos/hello:latest\<close> exactly
  when the version is the sentinel \<^verbatim>\<open>default\<close>; for every other version it is the
  image of the caller's repository tagged with that version.
\<close>

theorem resolveImage_sentinel:
  "(resolveImage repo version = FromRegistry ''nginxdemos/hello:latest'') = (version = ''default'') \<and>
   (version \<noteq> ''default'' \<longrightarrow> resolveImage repo version = FromEcrRepository repo version)"
  by (simp add: resolveImage_def DEFAULT_VERSION_def DEFAULT_IMAGE_def)

text \<open>The theorem at the version v2.\<close>

theorem resolveImage_sentinel_witness:
  "resolveImage ''app-repo'' ''v2'' = FromEcrRepository ''app-repo'' ''v2'' \<and>
   resolveImage ''app-repo'' ''v2'' \<noteq> FromRegistry ''nginxdemos/hello:latest''"
  using resolveImage_sentinel [of "''app-repo''" "''v2''"] by simp

text \<open>
  C5. The sizing takes 512 for the memory limit, 256 for the cpu and 1 for the desired
  count where the field is absent or 0, and the supplied number where it is present and
  not 0; the grace period is 60 seconds where the field is absent and the supplied
  duration where it is present (a duration is an object, and an object is truthy). The
  configuration \<^verbatim>\<open>{}\<close> takes the four defaults, and \<^verbatim>\<open>{cpu: 1024}\<close> takes the cpu 1024
  and the other three defaults.
\<close>

theorem resolveSizing_defaults:
  "(memoryLimitMiB cfg = None \<or> memoryLimitMiB cfg = Some 0 \<longrightarrow>
      sz_memoryLimitMiB (resolveSizing cfg) = 512) \<and>
   (\<forall>n. memoryLimitMiB cfg = Some n \<and> n \<noteq> 0 \<longrightarrow> sz_memoryLimitMiB (resolveSizing cfg) = n) \<and>
   (cpu cfg = None \<or> cpu cfg = Some 0 \<longrightarrow> sz_cpu (resolveSizing cfg) = 256) \<and>
   (\<forall>n. cpu cfg = Some n \<and> n \<noteq> 0 \<longrightarrow> sz_cpu (resolveSizing cfg) = n) \<and>
   (desiredCount cfg = None \<or> desiredCount cfg = Some 0 \<longrightarrow>
      sz_desiredCount (resolveSizing cfg) = 1) \<and>
   (\<forall>n. desiredCount cfg = Some n \<and> n \<noteq> 0 \<longrightarrow> sz_desiredCount (resolveSizing cfg) = n) \<and>
   (healthCheckGracePeriod cfg = None \<longrightarrow>
      sz_healthCheckGracePeriod (resolveSizing cfg) = Duration_seconds 60) \<and>
   (\<forall>d. healthCheckGracePeriod cfg = Some d \<longrightarrow> sz_healthCheckGracePeriod (resolveSizing cfg) = d) \<and>
   resolveSizing empty_config =
     \<lparr> sz_memoryLimitMiB = 512, sz_healthCheckGracePeriod = Duration_seconds 60,
       sz_cpu = 256, sz_desiredCount = 1 \<rparr> \<and>
   resolveSizing (empty_config\<lparr>cpu := Some 1024\<rparr>) =
     \<lparr> sz_memoryLimitMiB = 512, sz_healthCheckGracePeriod = Duration_seconds 60,
       sz_cpu = 1024, sz_desiredCount = 1 \<rparr>"
  by (simp add: resolveSizing_def or_number_def or_object_def empty_config_def)

text \<open>The theorem at a configuration with the cpu 1024 and the desired count 0.\<close>

theorem resolveSizing_defaults_witness:
  "sz_memoryLimitMiB (resolveSizing (empty_config\<lparr>cpu := Some 1024, desiredCount := Some 0\<rparr>)) = 512 \<and>
   sz_cpu (resolveSizing (empty_config\<lparr>cpu := Some 1024, desiredCount := Some 0\<rparr>)) = 1024 \<and>
   sz_desiredCount (resolveSizing (empty_config\<lparr>cpu := Some 1024, desiredCount := Some 0\<rparr>)) = 1 \<and>
   sz_healthCheckGracePeriod (resolveSizing (empty_config\<lparr>cpu := Some 1024, desiredCount := Some 0\<rparr>)) =
     Duration_seconds 60"
  using resolveSizing_defaults [of "empty_config\<lparr>cpu := Some 1024, desiredCount := Some 0\<rparr>"]
  by (simp add: empty_config_def)

text \<open>
  The current loop has no failure of its own on a map that holds strings only: it
  returns the compiled secrets, and the constructor passes them on with the sizing. The
  checks the library makes on the arguments it receives are not part of this model.
\<close>

lemma FargateService_returns:
  assumes "string_record (secret_entries (taskConfiguration props))"
  shows "\<exists>out opts. resolveSecrets (taskConfiguration props) = Inr out \<and>
           FargateService props = Inr opts \<and> opt_secrets opts = out \<and>
           opt_sizing opts = resolveSizing (taskConfiguration props)"
proof -
  have "falsy_or_string (secret_entries (taskConfiguration props))"
    using assms by (rule string_record_falsy_or_string)
  then obtain out where "resolveSecrets (taskConfiguration props) = Inr out"
    using resolveSecrets_total by blast
  then show ?thesis by (simp add: FargateService_def Let_def)
qed

text \<open>
  C6. The resolution is to complete without an error for every configuration whose
  secrets map holds strings only. The loop of \<^verbatim>\<open>src/fargate.ts\<close> does not: the map
  \<^verbatim>\<open>{"DB_PASS": "my-secret:password"}\<close> holds one string, the loop enumerates the
  index 0 of the array of keys instead of the key, reads \<^verbatim>\<open>secretValues["0"]\<close>,
  which is undefined, and raises TypeError at \<^verbatim>\<open>value.split\<close>. The current loop
  returns the secret for the same map.
\<close>

theorem resolveSecrets_ts_raises:
  "string_record [(''DB_PASS'', JSString ''my-secret:password'')] \<and>
   wf_object [(''DB_PASS'', JSString ''my-secret:password'')] \<and>
   resolveSecrets_ts
     (empty_config\<lparr>secrets := Some [(''DB_PASS'', JSString ''my-secret:password'')]\<rparr>) =
     Inl TypeError \<and>
   (\<exists>out. resolveSecrets
     (empty_config\<lparr>secrets := Some [(''DB_PASS'', JSString ''my-secret:password'')]\<rparr>) =
     Inr out)"
proof -
  let ?sv = "[(''DB_PASS'', JSString ''my-secret:password'')]"
  have "string_record ?sv"
    by (simp add: string_record_def)
  moreover have "wf_object ?sv"
    by (simp add: wf_object_def)
  moreover have "resolveSecrets_ts (empty_config\<lparr>secrets := Some ?sv\<rparr>) = Inl TypeError"
    by (simp add: resolveSecrets_ts_def Object_keys_def for_in_keys_def string_of_nat.simps
        digit_char_def get_prop_def store_secret_def)
  moreover have "\<exists>out. resolveSecrets (empty_config\<lparr>secrets := Some ?sv\<rparr>) = Inr out"
    by (simp add: resolveSecrets_def Object_entries_def store_secret_def slice_def set_prop_def)
  ultimately show ?thesis by blast
qed

text \<open>
  C8, as the code has it. The two loops are not equivalent on every secrets map. On an
  absent or empty map both yield the empty object without error. Where the loop of
  \<^verbatim>\<open>src/fargate.ts\<close> completes, an entry it stores under a key whose value in the map is
  truthy is also the entry the current loop stores under that key (for an object whose
  truthy values are strings). The current loop skips the falsy values; the earlier one
  has no such guard.
\<close>

theorem secrets_loops_agree:
  "(secrets cfg = None \<or> secrets cfg = Some [] \<longrightarrow>
      resolveSecrets_ts cfg = Inr [] \<and> resolveSecrets cfg = Inr []) \<and>
   (\<forall>out_ts k r.
      wf_object (secret_entries cfg) \<and> falsy_or_string (secret_entries cfg) \<and>
      resolveSecrets_ts cfg = Inr out_ts \<and> map_of out_ts k = Some r \<and>
      truthy (get_prop (secret_entries cfg) k) \<longrightarrow>
      (\<exists>out. resolveSecrets cfg = Inr out \<and> map_of out k = Some r))"
proof -
  let ?sv = "secret_entries cfg"
  have "\<exists>out. resolveSecrets cfg = Inr out \<and> map_of out k = Some r"
    if wf: "wf_object ?sv" and fs: "falsy_or_string ?sv"
      and ts: "resolveSecrets_ts cfg = Inr out_ts" and r: "map_of out_ts k = Some r"
      and tr: "truthy (get_prop ?sv k)" for out_ts k r
  proof -
    from tr obtain sv where sv: "secrets cfg = Some sv"
      by (cases "secrets cfg") (auto simp: secret_entries_def get_prop_def)
    then have entries: "?sv = sv" by (simp add: secret_entries_def)
    from ts sv have "secrets_loop_ts sv (for_in_keys (Object_keys sv)) [] = Inr out_ts"
      by (simp add: resolveSecrets_ts_def)
    from secrets_loop_ts_Inr [OF this, of k] r
    have r_eq: "r = secret_entry k (string_of (get_prop sv k))"
      by (auto split: if_splits)
    from tr entries obtain v where v: "map_of sv k = Some v" "truthy v" "get_prop sv k = v"
      by (cases "map_of sv k") (auto simp: get_prop_def)
    have "resolveSecrets cfg = Inr (compiled ?sv)"
      by (rule resolveSecrets_compiled [OF fs wf])
    moreover have "map_of (compiled ?sv) k = Some r"
      using wf v r_eq entries by (simp add: map_of_compiled wf_object_def)
    ultimately show ?thesis by blast
  qed
  then show ?thesis
    using resolveSecrets_ts_empty [of cfg] resolveSecrets_empty [of cfg] by blast
qed

text \<open>The theorem at a map whose only key is the index 0.\<close>

theorem secrets_loops_agree_witness:
  "\<exists>out. resolveSecrets (empty_config\<lparr>secrets := Some [(''0'', JSString ''a:b'')]\<rparr>) = Inr out \<and>
     map_of out ''0'' = Some (FromSecretsManager (FromSecretNameV2 ''0'' (Some ''a'')) (Some ''b''))"
proof -
  let ?cfg = "empty_config\<lparr>secrets := Some [(''0'', JSString ''a:b'')]\<rparr>"
  let ?r = "FromSecretsManager (FromSecretNameV2 ''0'' (Some ''a'')) (Some ''b'')"
  have wf: "wf_object (secret_entries ?cfg)"
    by (simp add: secret_entries_def wf_object_def)
  have fs: "falsy_or_string (secret_entries ?cfg)"
    by (simp add: secret_entries_def falsy_or_string_def)
  have ts: "resolveSecrets_ts ?cfg = Inr [(''0'', ?r)]"
    by (simp add: resolveSecrets_ts_def Object_keys_def for_in_keys_def string_of_nat.simps
        digit_char_def get_prop_def store_secret_def slice_def set_prop_def)
  have r: "map_of [(''0'', ?r)] ''0'' = Some ?r" by simp
  have tr: "truthy (get_prop (secret_entries ?cfg) ''0'')"
    by (simp add: secret_entries_def get_prop_def)
  from secrets_loops_agree [of ?cfg] wf fs ts r tr show ?thesis by blast
qed

text \<open>
  C8 as stated fails. For \<^verbatim>\<open>{"DB_PASS": "my-secret:password"}\<close> the earlier loop
  enumerates the index 0 of the array of keys, reads \<^verbatim>\<open>secretValues["0"]\<close>, which is
  undefined, and raises TypeError at \<^verbatim>\<open>value.split\<close>, while the current loop stores
  the secret. For \<^verbatim>\<open>{"0": ""}\<close> the earlier loop stores a secret with an empty name,
  while the current loop skips the empty value.
\<close>

theorem secrets_loops_differ:
  "resolveSecrets_ts (empty_config\<lparr>secrets := Some [(''DB_PASS'', JSString ''my-secret:password'')]\<rparr>) =
     Inl TypeError \<and>
   resolveSecrets (empty_config\<lparr>secrets := Some [(''DB_PASS'', JSString ''my-secret:password'')]\<rparr>) =
     Inr [(''DB_PASS'',
           FromSecretsManager (FromSecretNameV2 ''DB_PASS'' (Some ''my-secret''))
             (Some ''password''))] \<and>
   resolveSecrets_ts (empty_config\<lparr>secrets := Some [(''0'', JSString '''')]\<rparr>) =
     Inr [(''0'', FromSecretsManager (FromSecretNameV2 ''0'' (Some '''')) None)] \<and>
   resolveSecrets (empty_config\<lparr>secrets := Some [(''0'', JSString '''')]\<rparr>) = Inr []"
  by (simp add: resolveSecrets_ts_def resolveSecrets_def Object_entries_def Object_keys_def
      for_in_keys_def string_of_nat.simps digit_char_def get_prop_def store_secret_def
      slice_def set_prop_def)

text \<open>
  C10. When the props give no image version, the destructuring default makes it the
  sentinel \<^verbatim>\<open>default\<close>: the image the constructor passes on is the fixed public image
  and not an image of the repository. The constructor returns whenever the secrets map
  keeps the contract.
\<close>

theorem FargateService_default_image:
  assumes "imageVersion props = None"
  shows "(\<forall>opts. FargateService props = Inr opts \<longrightarrow>
            opt_image opts = FromRegistry ''nginxdemos/hello:latest'') \<and>
         (falsy_or_string (secret_entries (taskConfiguration props)) \<longrightarrow>
            (\<exists>opts. FargateService props = Inr opts \<and>
               opt_image opts = FromRegistry ''nginxdemos/hello:latest''))"
proof -
  have img: "opt_image opts = FromRegistry ''nginxdemos/hello:latest''"
    if "FargateService props = Inr opts" for opts
    using that assms
    by (auto simp: FargateService_def Let_def resolveImage_def DEFAULT_IMAGE_def
        split: sum.splits)
  moreover have "\<exists>opts. FargateService props = Inr opts"
    if "falsy_or_string (secret_entries (taskConfiguration props))"
  proof -
    from that obtain out where "resolveSecrets (taskConfiguration props) = Inr out"
      using resolveSecrets_total by blast
    then show ?thesis by (simp add: FargateService_def Let_def)
  qed
  ultimately show ?thesis by blast
qed

text \<open>The theorem at props with no image version and the configuration with no field.\<close>

theorem FargateService_default_image_witness:
  "\<exists>opts. FargateService \<lparr> healthCheckPath = None, imageVersion = None,
        subDomainIncludingDot = None, repository = ''app-repo'',
        taskConfiguration = empty_config \<rparr> = Inr opts \<and>
     opt_image opts = FromRegistry ''nginxdemos/hello:latest''"
proof -
  let ?props = "\<lparr> healthCheckPath = None, imageVersion = None,
        subDomainIncludingDot = None, repository = ''app-repo'',
        taskConfiguration = empty_config \<rparr>"
  have v: "imageVersion ?props = None" by simp
  have c: "falsy_or_string (secret_entries (taskConfiguration ?props))"
    by (simp add: falsy_or_string_def secret_entries_def empty_config_def)
  from FargateService_default_image [OF v] c show ?thesis by blast
qed

end
